theory Spec2Isabelle
  imports Complex_Main "HOL-Library.Sublist" "HOL-Library.Multiset"
begin

section \<open>Values and errors\<close>

text \<open>
  The TypeScript type \<open>number\<close> is modelled by \<^typ>\<open>real\<close> where it holds a vector
  component or a score, by \<^typ>\<open>int\<close> where it holds the result count and by
  \<^typ>\<open>nat\<close> where it holds a loop index, an attempt count or a delay in milliseconds.
  Arithmetic is therefore exact: rounding, overflow to \<open>Infinity\<close> and \<open>NaN\<close> of IEEE
  doubles are outside the model.

  The value \<open>undefined\<close> is \<open>None\<close>; reading an array beyond its length yields it.
\<close>

datatype error = Error string | TypeError string

definition DimensionMismatch :: error where
  "DimensionMismatch = Error ''Vectors must have the same length''"

definition js_nth :: "'a list \<Rightarrow> nat \<Rightarrow> 'a option" where
  "js_nth xs i = (if i < length xs then Some (xs ! i) else None)"


section \<open>The similarity function\<close>

text \<open>
  \<open>SimpleVectorDatabase.cosineSimilarity\<close>. The \<open>for\<close> loop over \<open>i\<close> carries the three
  accumulators \<open>dotProduct\<close>, \<open>normA\<close> and \<open>normB\<close>.
\<close>

function cosine_loop :: "real list \<Rightarrow> real list \<Rightarrow> nat \<Rightarrow> real \<times> real \<times> real \<Rightarrow> real \<times> real \<times> real" where
  "cosine_loop a b i (dotProduct, normA, normB) =
     (if i < length a
      then cosine_loop a b (i + 1)
             (dotProduct + a ! i * b ! i, normA + a ! i * a ! i, normB + b ! i * b ! i)
      else (dotProduct, normA, normB))"
  by pat_completeness auto
termination
  by (relation "measure (\<lambda>(a, b, i, acc). length a - i)") auto

definition cosineSimilarity :: "real list \<Rightarrow> real list \<Rightarrow> error + real" where
  "cosineSimilarity a b =
     (if length a \<noteq> length b then Inl DimensionMismatch
      else (case cosine_loop a b 0 (0, 0, 0) of
              (dotProduct, normA2, normB2) \<Rightarrow>
                (let normA = sqrt normA2; normB = sqrt normB2
                 in if normA = 0 \<or> normB = 0 then Inr 0
                    else Inr (dotProduct / (normA * normB)))))"

text \<open>
  The words of the specification: the dot product and the Euclidean norm of a vector.
\<close>

definition dot :: "real list \<Rightarrow> real list \<Rightarrow> real" where
  "dot a b = (\<Sum>i<length a. a ! i * b ! i)"

definition vnorm :: "real list \<Rightarrow> real" where
  "vnorm a = sqrt (dot a a)"



section \<open>Arrays of the runtime\<close>

text \<open>
  \<open>Array.prototype.map\<close> with a callback that may throw: the elements are visited from
  the left and the first exception ends the traversal.
\<close>

fun map_result :: "('a \<Rightarrow> error + 'b) \<Rightarrow> 'a list \<Rightarrow> error + 'b list" where
  "map_result f [] = Inr []"
| "map_result f (x # xs) =
     (case f x of
        Inl e \<Rightarrow> Inl e
      | Inr y \<Rightarrow> (case map_result f xs of Inl e \<Rightarrow> Inl e | Inr ys \<Rightarrow> Inr (y # ys)))"

text \<open>
  \<open>Array.prototype.sort\<close> with a comparator. ECMAScript requires the sort to be stable, and
  \<open>cmp x y \<le> 0\<close> keeps \<open>x\<close> before \<open>y\<close>. For a comparator that is a difference of keys this
  fixes the result; it is computed here by insertion from the right.
\<close>

fun insert_cmp :: "('a \<Rightarrow> 'a \<Rightarrow> real) \<Rightarrow> 'a \<Rightarrow> 'a list \<Rightarrow> 'a list" where
  "insert_cmp cmp x [] = [x]"
| "insert_cmp cmp x (y # ys) =
     (if cmp x y \<le> 0 then x # y # ys else y # insert_cmp cmp x ys)"

definition array_sort :: "('a \<Rightarrow> 'a \<Rightarrow> real) \<Rightarrow> 'a list \<Rightarrow> 'a list" where
  "array_sort cmp xs = foldr (insert_cmp cmp) xs []"

text \<open>
  \<open>Array.prototype.slice(start, end)\<close> for integer arguments: a negative argument counts
  from the end of the array.
\<close>

definition array_slice :: "'a list \<Rightarrow> int \<Rightarrow> int \<Rightarrow> 'a list" where
  "array_slice xs start end =
     (let len = int (length xs);
          k = (if start < 0 then max (len + start) 0 else min start len);
          final = (if end < 0 then max (len + end) 0 else min end len)
      in take (nat (max (final - k) 0)) (drop (nat k) xs))"


section \<open>The in-memory store\<close>

text \<open>
  A record of the corpus, \<open>{ id, text, embedding }\<close>. A field is \<open>None\<close> when
  \<open>addDocuments\<close> read it beyond the end of its argument array.
\<close>

record document =
  doc_id :: "string option"
  doc_text :: "string option"
  doc_embedding :: "real list option"

text \<open>The objects \<open>{ ...doc, similarity, distance }\<close> that \<open>query\<close> builds.\<close>

record scored = document +
  similarity :: real
  distance :: real

text \<open>The fields of \<open>RagResult\<close> that the in-memory store fills.\<close>

record RagResult =
  r_documents :: "string option list"
  r_ids :: "string option list"
  r_distances :: "real list"

record SimpleVectorDatabase =
  documents :: "document list"
  dataFile :: string

text \<open>
  The callback of \<open>this.documents.map\<close> in \<open>query\<close>. Reading \<open>length\<close> of an undefined
  embedding is a \<open>TypeError\<close> of the runtime.
\<close>

definition score :: "real list \<Rightarrow> document \<Rightarrow> error + scored" where
  "score queryEmbedding doc =
     (case doc_embedding doc of
        None \<Rightarrow> Inl (TypeError ''Cannot read properties of undefined'')
      | Some b \<Rightarrow>
          (case cosineSimilarity queryEmbedding b of
             Inl e \<Rightarrow> Inl e
           | Inr s \<Rightarrow>
               Inr \<lparr>doc_id = doc_id doc, doc_text = doc_text doc,
                    doc_embedding = doc_embedding doc,
                    similarity = s, distance = 1 - s\<rparr>))"

definition query :: "SimpleVectorDatabase \<Rightarrow> real list \<Rightarrow> int \<Rightarrow> error + RagResult" where
  "query db queryEmbedding nResults =
     (if length (documents db) = 0
      then Inr \<lparr>r_documents = [], r_ids = [], r_distances = []\<rparr>
      else (case map_result (score queryEmbedding) (documents db) of
              Inl e \<Rightarrow> Inl e
            | Inr similarities \<Rightarrow>
                (let sorted = array_sort (\<lambda>a b. similarity b - similarity a) similarities;
                     topResults = array_slice sorted 0 nResults
                 in Inr \<lparr>r_documents = map doc_text topResults,
                         r_ids = map doc_id topResults,
                         r_distances = map distance topResults\<rparr>)))"

definition getExistingIds :: "SimpleVectorDatabase \<Rightarrow> string option list" where
  "getExistingIds db = map doc_id (documents db)"

text \<open>
  The loop of \<open>addDocuments\<close>: at each position the records with the incoming id are
  filtered out and the new record is pushed at the end.
\<close>

function addDocuments_loop ::
  "string list \<Rightarrow> real list list \<Rightarrow> string list \<Rightarrow> nat \<Rightarrow> document list \<Rightarrow> document list" where
  "addDocuments_loop texts embeddings ids i docs =
     (if i < length texts
      then addDocuments_loop texts embeddings ids (i + 1)
             (filter (\<lambda>doc. doc_id doc \<noteq> js_nth ids i) docs @
              [\<lparr>doc_id = js_nth ids i, doc_text = js_nth texts i,
                doc_embedding = js_nth embeddings i\<rparr>])
      else docs)"
  by pat_completeness auto
termination
  by (relation "measure (\<lambda>(texts, embeddings, ids, i, docs). length texts - i)") auto

text \<open>
  \<open>saveToFile\<close> writes the corpus to \<open>dataFile\<close>. The file system is a parameter: the
  function \<open>writeFileSync\<close> takes the path and the corpus to serialise, and may fail.
\<close>

definition saveToFile ::
  "(string \<Rightarrow> document list \<Rightarrow> 'w \<Rightarrow> (error + unit) \<times> 'w) \<Rightarrow> SimpleVectorDatabase \<Rightarrow> 'w
     \<Rightarrow> (error + unit) \<times> 'w" where
  "saveToFile writeFileSync db w = writeFileSync (dataFile db) (documents db) w"

definition addDocuments ::
  "(string \<Rightarrow> document list \<Rightarrow> 'w \<Rightarrow> (error + unit) \<times> 'w) \<Rightarrow> SimpleVectorDatabase
     \<Rightarrow> string list \<Rightarrow> real list list \<Rightarrow> string list \<Rightarrow> 'w
     \<Rightarrow> (error + unit) \<times> SimpleVectorDatabase \<times> 'w" where
  "addDocuments writeFileSync db texts embeddings ids w =
     (let db' = db\<lparr>documents := addDocuments_loop texts embeddings ids 0 (documents db)\<rparr>
      in case saveToFile writeFileSync db' w of (r, w') \<Rightarrow> (r, db', w'))"

text \<open>
  The entries of a result: the three parallel arrays read position by position.
\<close>

definition entries :: "RagResult \<Rightarrow> (string option \<times> string option \<times> real) list" where
  "entries r = zip (r_ids r) (zip (r_documents r) (r_distances r))"

text \<open>
  The words of the specification: the similarity of a corpus record to the query vector
  and the \<open>(id, text, 1 - similarity)\<close> image of the record. The similarity is read off
  the similarity function; the value \<open>0\<close> stands where that function fails. A record is
  comparable with a query vector when its vector is defined and has the same length, and
  \<open>scored_of\<close> is the object that \<open>query\<close> builds for such a record.
\<close>

definition similarity_of :: "real list \<Rightarrow> document \<Rightarrow> real" where
  "similarity_of v d =
     (case doc_embedding d of
        None \<Rightarrow> 0
      | Some b \<Rightarrow> (case cosineSimilarity v b of Inl e \<Rightarrow> 0 | Inr s \<Rightarrow> s))"

definition scored_of :: "real list \<Rightarrow> document \<Rightarrow> scored" where
  "scored_of v d =
     \<lparr>doc_id = doc_id d, doc_text = doc_text d, doc_embedding = doc_embedding d,
      similarity = similarity_of v d, distance = 1 - similarity_of v d\<rparr>"

definition entry_of :: "real list \<Rightarrow> document \<Rightarrow> string option \<times> string option \<times> real" where
  "entry_of v d = (doc_id d, doc_text d, 1 - similarity_of v d)"

definition comparable :: "real list \<Rightarrow> document \<Rightarrow> bool" where
  "comparable v d =
     (case doc_embedding d of None \<Rightarrow> False | Some b \<Rightarrow> length b = length v)"


section \<open>The in-memory store over an explicit array store\<close>

text \<open>
  Arrays are mutable objects: \<open>sort\<close> reorders the array it is called on, while \<open>map\<close>,
  \<open>filter\<close> and \<open>slice\<close> return a new array. In this second model of \<open>query\<close> and
  \<open>getExistingIds\<close> an array lives at an address of a store and the object holds the
  address of its \<open>documents\<close> array. Allocation appends to the store. The elements of an
  array are kept by value: no method assigns to a field of a record.
\<close>

datatype array =
  DocArray "document list" | ScoredArray "scored list" | StringArray "string option list"

type_synonym heap = "array list"

record SimpleVectorDatabase_object =
  documents_addr :: nat
  dataFile_value :: string

definition alloc :: "heap \<Rightarrow> array \<Rightarrow> nat \<times> heap" where
  "alloc h a = (length h, h @ [a])"

definition read_docs :: "heap \<Rightarrow> nat \<Rightarrow> document list" where
  "read_docs h p = (case js_nth h p of Some (DocArray ds) \<Rightarrow> ds | _ \<Rightarrow> [])"

definition read_scored :: "heap \<Rightarrow> nat \<Rightarrow> scored list" where
  "read_scored h p = (case js_nth h p of Some (ScoredArray ss) \<Rightarrow> ss | _ \<Rightarrow> [])"

definition sort_in_place :: "(scored \<Rightarrow> scored \<Rightarrow> real) \<Rightarrow> nat \<Rightarrow> heap \<Rightarrow> heap" where
  "sort_in_place cmp p h = h[p := ScoredArray (array_sort cmp (read_scored h p))]"

definition query_on_heap ::
  "SimpleVectorDatabase_object \<Rightarrow> real list \<Rightarrow> int \<Rightarrow> heap \<Rightarrow> (error + RagResult) \<times> heap" where
  "query_on_heap this queryEmbedding nResults h =
     (if length (read_docs h (documents_addr this)) = 0
      then (Inr \<lparr>r_documents = [], r_ids = [], r_distances = []\<rparr>, h)
      else (case map_result (score queryEmbedding) (read_docs h (documents_addr this)) of
              Inl e \<Rightarrow> (Inl e, h)
            | Inr mapped \<Rightarrow>
                (case alloc h (ScoredArray mapped) of
                   (similarities, h1) \<Rightarrow>
                     (let h2 = sort_in_place (\<lambda>a b. similarity b - similarity a) similarities h1
                      in case alloc h2 (ScoredArray
                                (array_slice (read_scored h2 similarities) 0 nResults)) of
                           (topResults, h3) \<Rightarrow>
                             (Inr \<lparr>r_documents = map doc_text (read_scored h3 topResults),
                                   r_ids = map doc_id (read_scored h3 topResults),
                                   r_distances = map distance (read_scored h3 topResults)\<rparr>,
                              h3)))))"

definition getExistingIds_on_heap ::
  "SimpleVectorDatabase_object \<Rightarrow> heap \<Rightarrow> string option list \<times> heap" where
  "getExistingIds_on_heap this h =
     (case alloc h (StringArray (map doc_id (read_docs h (documents_addr this)))) of
        (result, h1) \<Rightarrow> (map doc_id (read_docs h (documents_addr this)), h1))"

text \<open>The state that the first model sees in an object and a store.\<close>

definition abstract_db :: "SimpleVectorDatabase_object \<Rightarrow> heap \<Rightarrow> SimpleVectorDatabase" where
  "abstract_db this h =
     \<lparr>documents = read_docs h (documents_addr this), dataFile = dataFile_value this\<rparr>"


section \<open>The Upstash adapter\<close>

text \<open>
  The client class \<open>Index\<close> of the package \<open>@upstash/vector\<close> is a parameter: its two
  methods act on a world \<open>'w\<close> (the remote service) and succeed or fail. The type \<open>'id\<close>
  holds the ids the service returns, a string or a number; the conversion \<open>String\<close> of
  the runtime is the parameter \<open>toString\<close> of the functions that call it.
\<close>

record Metadata =
  md_document :: "string option"
  md_timestamp :: "string option"
  md_collection :: "string option"

record QueryArgs =
  vector :: "real list"
  topK :: int
  includeMetadata :: "bool option"

record UpsertVector =
  uv_id :: "string option"
  uv_vector :: "real list"
  uv_metadata :: Metadata

record 'id QueryHit =
  hit_id :: 'id
  hit_score :: "real option"
  hit_metadata :: "Metadata option"

record ('w, 'id) Index =
  index_query :: "QueryArgs \<Rightarrow> 'w \<Rightarrow> (error + 'id QueryHit list) \<times> 'w"
  index_upsert :: "UpsertVector list \<Rightarrow> 'w \<Rightarrow> (error + unit) \<times> 'w"

record ('w, 'id) UpstashDatabase =
  index :: "('w, 'id) Index option"

definition retryAttempts :: nat where
  "retryAttempts = 3"

definition retryDelay :: nat where
  "retryDelay = 1000"

definition COLLECTION_NAME :: string where
  "COLLECTION_NAME = ''foods''"

record UpstashRagResult =
  u_documents :: "string list"
  u_ids :: "string list"
  u_distances :: "real list"
  u_metadata :: "(real \<times> string option) list"

text \<open>
  What \<open>withRetry\<close> does to the outside: it calls the operation and it waits on a timer,
  for a number of milliseconds. An operation fails with an \<open>Error\<close> object, as the cast
  \<open>error as Error\<close> of the source says; such an object is never replaced by the default
  of \<open>lastError || new Error(...)\<close>.
\<close>

datatype event = Attempt | Delay nat

function withRetry_loop ::
  "('w \<Rightarrow> (error + 'a) \<times> 'w) \<Rightarrow> nat \<Rightarrow> error option \<Rightarrow> 'w \<Rightarrow> event list
     \<Rightarrow> (error + 'a) \<times> 'w \<times> event list" where
  "withRetry_loop operation i lastError w tr =
     (if i < retryAttempts
      then (case operation w of
              (Inr v, w') \<Rightarrow> (Inr v, w', tr @ [Attempt])
            | (Inl e, w') \<Rightarrow>
                withRetry_loop operation (i + 1) (Some e) w'
                  (tr @ [Attempt] @
                   (if int i < int retryAttempts - 1 then [Delay (retryDelay * 2 ^ i)] else [])))
      else (Inl (case lastError of
                   Some e \<Rightarrow> e
                 | None \<Rightarrow> Error ''Operation failed after retries''),
            w, tr))"
  by pat_completeness auto
termination
  by (relation "measure (\<lambda>(operation, i, lastError, w, tr). retryAttempts - i)") auto

definition withRetry ::
  "('w \<Rightarrow> (error + 'a) \<times> 'w) \<Rightarrow> 'w \<Rightarrow> (error + 'a) \<times> 'w \<times> event list" where
  "withRetry operation w = withRetry_loop operation 0 None w []"

text \<open>
  \<open>addDocuments\<close> of the adapter. The parameter \<open>now\<close> gives the time stamp that
  \<open>new Date().toISOString()\<close> yields for the vector at a position.
\<close>

definition upstash_addDocuments ::
  "(nat \<Rightarrow> string) \<Rightarrow> ('w, 'id) UpstashDatabase \<Rightarrow> string list \<Rightarrow> real list list \<Rightarrow> string list
     \<Rightarrow> 'w \<Rightarrow> (error + unit) \<times> 'w \<times> event list" where
  "upstash_addDocuments now db texts embeddings ids w =
     (case index db of
        None \<Rightarrow> (Inl (Error ''Upstash Vector not initialized''), w, [])
      | Some idx \<Rightarrow>
          (let vectors =
                 map (\<lambda>(embedding, i).
                        \<lparr>uv_id = js_nth ids i, uv_vector = embedding,
                         uv_metadata = \<lparr>md_document = js_nth texts i,
                                        md_timestamp = Some (now i),
                                        md_collection = Some COLLECTION_NAME\<rparr>\<rparr>)
                     (zip embeddings [0..<length embeddings])
           in withRetry (index_upsert idx vectors) w))"

definition upstash_query ::
  "('id \<Rightarrow> string) \<Rightarrow> ('w, 'id) UpstashDatabase \<Rightarrow> real list \<Rightarrow> int \<Rightarrow> 'w
     \<Rightarrow> (error + UpstashRagResult) \<times> 'w \<times> event list" where
  "upstash_query toString db queryEmbedding nResults w =
     (case index db of
        None \<Rightarrow> (Inl (Error ''Upstash Vector not initialized''), w, [])
      | Some idx \<Rightarrow>
          (case withRetry (index_query idx \<lparr>vector = queryEmbedding, topK = nResults,
                                            includeMetadata = Some True\<rparr>) w of
             (Inl e, w', tr) \<Rightarrow> (Inl e, w', tr)
           | (Inr results, w', tr) \<Rightarrow>
               (Inr \<lparr>u_documents =
                       map (\<lambda>r. case hit_metadata r of
                                   None \<Rightarrow> []
                                 | Some m \<Rightarrow> (case md_document m of None \<Rightarrow> [] | Some d \<Rightarrow> d))
                           results,
                     u_ids = map (\<lambda>r. toString (hit_id r)) results,
                     u_distances =
                       map (\<lambda>r. 1 - (case hit_score r of None \<Rightarrow> 0 | Some s \<Rightarrow> s)) results,
                     u_metadata =
                       map (\<lambda>r. (case hit_score r of None \<Rightarrow> 0 | Some s \<Rightarrow> s,
                                 case hit_metadata r of None \<Rightarrow> None | Some m \<Rightarrow> md_timestamp m))
                           results\<rparr>,
                w', tr)))"

text \<open>
  \<open>getExistingIds\<close> of the adapter returns its result, the world and the lines it wrote
  with \<open>console.warn\<close>.
\<close>

definition upstash_getExistingIds ::
  "('id \<Rightarrow> string) \<Rightarrow> ('w, 'id) UpstashDatabase \<Rightarrow> 'w
     \<Rightarrow> (error + string list) \<times> 'w \<times> string list" where
  "upstash_getExistingIds toString db w =
     (case index db of
        None \<Rightarrow> (Inl (Error ''Upstash Vector not initialized''), w, [])
      | Some idx \<Rightarrow>
          (case index_query idx \<lparr>vector = replicate 1536 0, topK = 100,
                                 includeMetadata = Some False\<rparr> w of
             (Inr results, w') \<Rightarrow> (Inr (map (\<lambda>r. toString (hit_id r)) results), w', [])
           | (Inl e, w') \<Rightarrow>
               (Inr [], w', [''Upstash Vector: Failed to retrieve existing IDs''])))"

text \<open>
  The outcome of the \<open>n\<close>-th call of an operation, counted from \<open>0\<close>, when it is called
  again and again from the world \<open>w\<close>.
\<close>

fun world_after :: "('w \<Rightarrow> (error + 'a) \<times> 'w) \<Rightarrow> 'w \<Rightarrow> nat \<Rightarrow> 'w" where
  "world_after operation w 0 = w"
| "world_after operation w (Suc n) = snd (operation (world_after operation w n))"

definition outcome :: "('w \<Rightarrow> (error + 'a) \<times> 'w) \<Rightarrow> 'w \<Rightarrow> nat \<Rightarrow> error + 'a" where
  "outcome operation w n = fst (operation (world_after operation w n))"


section \<open>Selection of the backend\<close>

text \<open>
  The part of \<open>config\<close> that \<open>createVectorDatabase\<close> reads. \<open>VECTOR_DB_TYPE\<close> is one of
  the three strings of its schema; the two credentials are optional strings.
\<close>

datatype db_type = chroma | upstash | simple

record config =
  VECTOR_DB_TYPE :: db_type
  UPSTASH_VECTOR_URL :: "string option"
  UPSTASH_VECTOR_TOKEN :: "string option"

text \<open>An optional string in a condition: \<open>undefined\<close> and the empty string count as false.\<close>

definition truthy :: "string option \<Rightarrow> bool" where
  "truthy s = (case s of None \<Rightarrow> False | Some t \<Rightarrow> t \<noteq> [])"

datatype VectorDatabase = new_UpstashDatabase | new_ChromaDatabase | new_SimpleVectorDatabase

text \<open>
  \<open>createVectorDatabase\<close> returns the class it instantiates and the lines it wrote with
  \<open>console.log\<close>.
\<close>

definition createVectorDatabase :: "config \<Rightarrow> VectorDatabase \<times> string list" where
  "createVectorDatabase cfg =
     (if VECTOR_DB_TYPE cfg = upstash \<and> truthy (UPSTASH_VECTOR_URL cfg)
           \<and> truthy (UPSTASH_VECTOR_TOKEN cfg)
      then (new_UpstashDatabase, [])
      else (case VECTOR_DB_TYPE cfg of
              chroma \<Rightarrow> (new_ChromaDatabase, [])
            | simple \<Rightarrow> (new_SimpleVectorDatabase, [''Falling back to simple vector database''])
            | upstash \<Rightarrow> (new_SimpleVectorDatabase, [''Falling back to simple vector database''])))"


section \<open>Simplification setup\<close>

declare cosine_loop.simps [simp del]
declare addDocuments_loop.simps [simp del]
declare withRetry_loop.simps [simp del]


section \<open>Properties of the similarity function\<close>

lemma cosine_loop_sums:
  assumes "i \<le> length a"
  shows "cosine_loop a b i (d, p, q) =
           (d + (\<Sum>j = i..<length a. a ! j * b ! j),
            p + (\<Sum>j = i..<length a. a ! j * a ! j),
            q + (\<Sum>j = i..<length a. b ! j * b ! j))"
  using assms
proof (induction a b i "(d, p, q)" arbitrary: d p q rule: cosine_loop.induct)
  case (1 a b i d p q)
  show ?case
  proof (cases "i < length a")
    case True
    then have "Suc i \<le> length a" by simp
    with 1 True show ?thesis
      by (subst cosine_loop.simps) (simp add: sum.atLeast_Suc_lessThan add.assoc)
  next
    case False
    with 1 show ?thesis by (subst cosine_loop.simps) simp
  qed
qed

lemma cosine_loop_dot:
  assumes "length a = length b"
  shows "cosine_loop a b 0 (0, 0, 0) = (dot a b, dot a a, dot b b)"
  using cosine_loop_sums [of 0 a b 0 0 0] assms
  by (simp add: dot_def lessThan_atLeast0)

lemma cosineSimilarity_eq:
  assumes "length a = length b"
  shows "cosineSimilarity a b =
           (if vnorm a = 0 \<or> vnorm b = 0 then Inr 0
            else Inr (dot a b / (vnorm a * vnorm b)))"
  unfolding cosineSimilarity_def cosine_loop_dot [OF assms]
  using assms by (simp add: vnorm_def)

lemma cosineSimilarity_Inl:
  "cosineSimilarity a b = Inl e \<longleftrightarrow> length a \<noteq> length b \<and> e = DimensionMismatch"
  by (auto simp: cosineSimilarity_def Let_def split: prod.splits)

lemma cosineSimilarity_Inr:
  "cosineSimilarity a b = Inr s \<Longrightarrow> length a = length b"
  by (auto simp: cosineSimilarity_def split: if_splits)







section \<open>Properties of the array operations\<close>

lemma map_result_Inr:
  "map_result f xs = Inr ys \<Longrightarrow> list_all2 (\<lambda>x y. f x = Inr y) xs ys"
  by (induction xs arbitrary: ys) (auto split: sum.splits)

lemma map_result_Inl:
  "map_result f xs = Inl e \<Longrightarrow> \<exists>x \<in> set xs. f x = Inl e"
  by (induction xs) (auto split: sum.splits)

lemma map_result_total:
  "(\<And>x. x \<in> set xs \<Longrightarrow> f x = Inr (g x)) \<Longrightarrow> map_result f xs = Inr (map g xs)"
  by (induction xs) auto

lemma insert_cmp_insort:
  "insert_cmp (\<lambda>a b. f b - f a) x ys = insort_key (\<lambda>a. - f a) x ys"
  by (induction ys) auto

lemma array_sort_sort_key:
  "array_sort (\<lambda>a b. f b - f a) xs = sort_key (\<lambda>a. - f a) xs"
  by (induction xs) (simp_all add: array_sort_def insert_cmp_insort)

lemma insort_key_map:
  "insort_key h (g x) (map g ys) = map g (insort_key (\<lambda>a. h (g a)) x ys)"
  by (induction ys) auto

lemma sort_key_map:
  "sort_key h (map g xs) = map g (sort_key (\<lambda>a. h (g a)) xs)"
  by (induction xs) (auto simp: insort_key_map)

lemma insort_key_same_order:
  assumes "\<And>a b. f a \<le> f b \<longleftrightarrow> g a \<le> g b"
  shows "insort_key f x ys = insort_key g x ys"
  using assms by (induction ys) auto

lemma sort_key_same_order:
  assumes "\<And>a b. f a \<le> f b \<longleftrightarrow> g a \<le> g b"
  shows "sort_key f xs = sort_key g xs"
  by (induction xs) (auto simp: insort_key_same_order [of f g, OF assms])

lemma array_slice_take:
  "array_slice xs 0 e =
     take (nat (if e < 0 then max (int (length xs) + e) 0 else min e (int (length xs)))) xs"
  by (simp add: array_slice_def Let_def)

lemma array_slice_map: "array_slice (map f xs) s e = map f (array_slice xs s e)"
  by (simp add: array_slice_def Let_def take_map drop_map)

lemma length_array_slice_0:
  "0 \<le> e \<Longrightarrow> int (length (array_slice xs 0 e)) = min e (int (length xs))"
  by (simp add: array_slice_take)

lemma zip3_map:
  "zip (map f xs) (zip (map g xs) (map h xs)) = map (\<lambda>x. (f x, g x, h x)) xs"
  by (induction xs) auto


section \<open>Properties of \<open>query\<close>\<close>

lemma score_Inr:
  "score v d = Inr s \<longleftrightarrow> comparable v d \<and> s = scored_of v d"
  by (auto simp: score_def comparable_def scored_of_def similarity_of_def cosineSimilarity_Inl
           dest: cosineSimilarity_Inr split: option.splits sum.splits)

lemma score_all:
  assumes "map_result (score v) docs = Inr ss"
  shows "ss = map (scored_of v) docs \<and> (\<forall>d \<in> set docs. comparable v d)"
proof -
  have "list_all2 (\<lambda>d s. comparable v d \<and> s = scored_of v d) docs ss"
    using map_result_Inr [OF assms] by (simp add: score_Inr)
  then show ?thesis
    by (induction rule: list_all2_induct) auto
qed

lemma query_entries:
  assumes "query db v k = Inr r"
  shows "entries r =
           array_slice (sort_key (\<lambda>e. snd (snd e)) (map (entry_of v) (documents db))) 0 k"
proof (cases "documents db = []")
  case True
  with assms show ?thesis
    by (auto simp: query_def entries_def array_slice_def)
next
  case False
  with assms obtain ss where ss: "map_result (score v) (documents db) = Inr ss"
    by (auto simp: query_def split: sum.splits)
  let ?top = "array_slice (array_sort (\<lambda>a b. similarity b - similarity a) ss) 0 k"
  from assms False ss have r: "r = \<lparr>r_documents = map doc_text ?top,
      r_ids = map doc_id ?top, r_distances = map distance ?top\<rparr>"
    by (simp add: query_def Let_def)
  have ss_eq: "ss = map (scored_of v) (documents db)"
    using score_all [OF ss] by simp
  have "entries r = map (\<lambda>s. (doc_id s, doc_text s, distance s)) ?top"
    by (simp add: r entries_def zip3_map)
  also have "\<dots> = array_slice (map (\<lambda>s. (doc_id s, doc_text s, distance s))
      (sort_key (\<lambda>a. - similarity a) ss)) 0 k"
    by (simp add: array_slice_map array_sort_sort_key)
  also have "map (\<lambda>s. (doc_id s, doc_text s, distance s)) (sort_key (\<lambda>a. - similarity a) ss)
      = map (entry_of v) (sort_key (\<lambda>d. - similarity_of v d) (documents db))"
    by (simp add: ss_eq sort_key_map scored_of_def entry_of_def)
  also have "sort_key (\<lambda>d. - similarity_of v d) (documents db)
      = sort_key (\<lambda>d. snd (snd (entry_of v d))) (documents db)"
    by (rule sort_key_same_order) (simp add: entry_of_def)
  also have "map (entry_of v) \<dots> = sort_key (\<lambda>e. snd (snd e)) (map (entry_of v) (documents db))"
    by (simp add: sort_key_map)
  finally show ?thesis .
qed

lemma query_arrays:
  assumes "query db v k = Inr r"
  shows "r_ids r = map fst (entries r) \<and> r_documents r = map (fst \<circ> snd) (entries r)
         \<and> r_distances r = map (snd \<circ> snd) (entries r)"
proof -
  from assms obtain top :: "scored list" where
    "r = \<lparr>r_documents = map doc_text top, r_ids = map doc_id top,
          r_distances = map distance top\<rparr>"
    by (auto simp: query_def Let_def split: if_splits sum.splits intro: that [of "[]"])
  then show ?thesis
    by (simp add: entries_def zip3_map comp_def)
qed










text \<open>
  Claim C8. On an empty corpus \<open>query\<close> returns the empty result for every query vector
  and every count. For a count \<open>k \<ge> 0\<close> a result has at most \<open>min k n\<close> entries, where
  \<open>n\<close> is the size of the corpus, and its three arrays have the same length.
\<close>

theorem query_length:
  "(documents db = [] \<longrightarrow>
      query db v k = Inr \<lparr>r_documents = [], r_ids = [], r_distances = []\<rparr>)
   \<and> (\<forall>r. query db v k = Inr r \<and> 0 \<le> k \<longrightarrow>
         int (length (r_ids r)) \<le> min k (int (length (documents db)))
       \<and> length (r_documents r) = length (r_ids r)
       \<and> length (r_distances r) = length (r_ids r))"
proof (intro conjI allI impI)
  assume "documents db = []"
  then show "query db v k = Inr \<lparr>r_documents = [], r_ids = [], r_distances = []\<rparr>"
    by (simp add: query_def)
next
  fix r assume "query db v k = Inr r \<and> 0 \<le> k"
  then have q: "query db v k = Inr r" and k: "0 \<le> k" by simp_all
  have "int (length (entries r)) = min k (int (length (documents db)))"
    using k by (simp add: query_entries [OF q] length_array_slice_0)
  then show "int (length (r_ids r)) \<le> min k (int (length (documents db)))"
    using query_arrays [OF q] by simp
  show "length (r_documents r) = length (r_ids r)" "length (r_distances r) = length (r_ids r)"
    using query_arrays [OF q] by simp_all
qed

theorem query_length_witness:
  "documents \<lparr>documents = [], dataFile = ''simple_vector_db.json''\<rparr> = []
   \<and> query \<lparr>documents = [], dataFile = ''simple_vector_db.json''\<rparr> [1, 0] 5
       = Inr \<lparr>r_documents = [], r_ids = [], r_distances = []\<rparr>
   \<and> (0 :: int) \<le> 2
   \<and> query \<lparr>documents =
            [\<lparr>doc_id = Some ''B'', doc_text = Some ''b'', doc_embedding = Some [0, 1]\<rparr>,
             \<lparr>doc_id = Some ''A'', doc_text = Some ''a'', doc_embedding = Some [1, 0]\<rparr>,
             \<lparr>doc_id = Some ''C'', doc_text = Some ''c'', doc_embedding = Some [2, 0]\<rparr>],
          dataFile = ''simple_vector_db.json''\<rparr> [1, 0] 2
     = Inr \<lparr>r_documents = [Some ''a'', Some ''c''], r_ids = [Some ''A'', Some ''C''],
            r_distances = [0, 0]\<rparr>
   \<and> int (length (r_ids \<lparr>r_documents = [Some ''a'', Some ''c''],
                           r_ids = [Some ''A'', Some ''C''], r_distances = [0, 0 :: real]\<rparr>))
       \<le> min 2 3"
proof -
  let ?e = "\<lparr>documents = [], dataFile = ''simple_vector_db.json''\<rparr>"
  let ?db = "\<lparr>documents =
            [\<lparr>doc_id = Some ''B'', doc_text = Some ''b'', doc_embedding = Some [0, 1]\<rparr>,
             \<lparr>doc_id = Some ''A'', doc_text = Some ''a'', doc_embedding = Some [1, 0]\<rparr>,
             \<lparr>doc_id = Some ''C'', doc_text = Some ''c'', doc_embedding = Some [2, 0 :: real]\<rparr>],
          dataFile = ''simple_vector_db.json''\<rparr>"
  let ?r = "\<lparr>r_documents = [Some ''a'', Some ''c''], r_ids = [Some ''A'', Some ''C''],
            r_distances = [0, 0 :: real]\<rparr>"
  have q: "query ?db [1, 0] 2 = Inr ?r"
    by (simp add: query_def score_def cosineSimilarity_eq vnorm_def dot_def array_sort_def
        array_slice_def)
  have "query ?e [1, 0] 5 = Inr \<lparr>r_documents = [], r_ids = [], r_distances = []\<rparr>"
    using query_length [of ?e "[1, 0]" 5] by simp
  moreover have "query ?db [1, 0] 2 = Inr ?r \<and> (0 :: int) \<le> 2"
    using q by simp
  from query_length [of ?db "[1, 0]" 2, THEN conjunct2, rule_format, OF this]
  have "int (length (r_ids ?r)) \<le> min 2 (int (length (documents ?db)))" by simp
  ultimately show ?thesis using q by simp
qed


section \<open>Properties of \<open>addDocuments\<close>\<close>

lemma distinct_replace:
  assumes "distinct (map doc_id docs)"
  shows "distinct (map doc_id (filter (\<lambda>doc. doc_id doc \<noteq> x) docs @
           [\<lparr>doc_id = x, doc_text = t, doc_embedding = e\<rparr>]))"
  using assms by (auto simp: distinct_map_filter)

lemma addDocuments_loop_distinct:
  "distinct (map doc_id docs) \<Longrightarrow>
   distinct (map doc_id (addDocuments_loop texts embeddings ids i docs))"
proof (induction texts embeddings ids i docs rule: addDocuments_loop.induct)
  case (1 texts embeddings ids i docs)
  show ?case
  proof (cases "i < length texts")
    case True
    with 1 distinct_replace [of docs "js_nth ids i"] show ?thesis
      by (subst addDocuments_loop.simps) simp
  next
    case False
    with 1 show ?thesis by (subst addDocuments_loop.simps) simp
  qed
qed

lemma documents_addDocuments:
  "documents (fst (snd (addDocuments writeFileSync db texts embeddings ids w)))
     = addDocuments_loop texts embeddings ids 0 (documents db)"
  by (simp add: addDocuments_def Let_def split: prod.splits)

text \<open>
  Claim C9. When the ids of the corpus are pairwise different before \<open>addDocuments\<close>,
  they are pairwise different after it, for all argument arrays: an id may occur at
  several positions of \<open>ids\<close>, the arrays may differ in length, and the write of the
  snapshot may fail.
\<close>

theorem addDocuments_ids_unique:
  assumes "distinct (map doc_id (documents db))"
  shows "distinct (map doc_id
           (documents (fst (snd (addDocuments writeFileSync db texts embeddings ids w)))))"
  using assms by (simp add: documents_addDocuments addDocuments_loop_distinct)

lemma filter_other_id:
  "y \<noteq> x \<Longrightarrow>
   filter (\<lambda>d. doc_id d \<noteq> y \<and> doc_id d = x) docs = filter (\<lambda>d. doc_id d = x) docs"
  by (induction docs) auto

lemma addDocuments_loop_untouched:
  "(\<forall>j. i \<le> j \<and> j < length texts \<longrightarrow> js_nth ids j \<noteq> x) \<Longrightarrow>
   filter (\<lambda>d. doc_id d = x) (addDocuments_loop texts embeddings ids i docs)
     = filter (\<lambda>d. doc_id d = x) docs"
proof (induction texts embeddings ids i docs rule: addDocuments_loop.induct)
  case (1 texts embeddings ids i docs)
  show ?case
  proof (cases "i < length texts")
    case True
    have "filter (\<lambda>d. doc_id d = x) (addDocuments_loop texts embeddings ids (i + 1)
            (filter (\<lambda>doc. doc_id doc \<noteq> js_nth ids i) docs @
              [\<lparr>doc_id = js_nth ids i, doc_text = js_nth texts i,
                doc_embedding = js_nth embeddings i\<rparr>]))
          = filter (\<lambda>d. doc_id d = x) (filter (\<lambda>doc. doc_id doc \<noteq> js_nth ids i) docs @
              [\<lparr>doc_id = js_nth ids i, doc_text = js_nth texts i,
                doc_embedding = js_nth embeddings i\<rparr>])"
      using 1 True by simp
    also have "\<dots> = filter (\<lambda>d. doc_id d = x) docs"
    proof -
      from 1(2) True have "js_nth ids i \<noteq> x" by simp
      then show ?thesis by (simp add: filter_other_id)
    qed
    finally show ?thesis
      using True by (subst addDocuments_loop.simps) simp
  next
    case False
    then show ?thesis by (subst addDocuments_loop.simps) simp
  qed
qed

lemma addDocuments_loop_last:
  "i \<le> j \<Longrightarrow> j < length texts \<Longrightarrow>
   (\<forall>j'. j < j' \<and> j' < length texts \<longrightarrow> js_nth ids j' \<noteq> js_nth ids j) \<Longrightarrow>
   filter (\<lambda>d. doc_id d = js_nth ids j) (addDocuments_loop texts embeddings ids i docs)
     = [\<lparr>doc_id = js_nth ids j, doc_text = js_nth texts j,
         doc_embedding = js_nth embeddings j\<rparr>]"
proof (induction texts embeddings ids i docs rule: addDocuments_loop.induct)
  case (1 texts embeddings ids i docs)
  let ?step = "filter (\<lambda>doc. doc_id doc \<noteq> js_nth ids i) docs @
              [\<lparr>doc_id = js_nth ids i, doc_text = js_nth texts i,
                doc_embedding = js_nth embeddings i\<rparr>]"
  from 1(2,3) have lt: "i < length texts" by simp
  then have unfold: "addDocuments_loop texts embeddings ids i docs
      = addDocuments_loop texts embeddings ids (i + 1) ?step"
    by (subst addDocuments_loop.simps) simp
  show ?case
  proof (cases "i = j")
    case True
    have "filter (\<lambda>d. doc_id d = js_nth ids j)
            (addDocuments_loop texts embeddings ids (i + 1) ?step)
          = filter (\<lambda>d. doc_id d = js_nth ids j) ?step"
      using 1(4) True by (intro addDocuments_loop_untouched) auto
    also have "\<dots> = [\<lparr>doc_id = js_nth ids j, doc_text = js_nth texts j,
         doc_embedding = js_nth embeddings j\<rparr>]"
      using True by simp
    finally show ?thesis by (simp add: unfold)
  next
    case False
    with 1(2) have "i + 1 \<le> j" by simp
    from 1(1) [OF lt this 1(3) 1(4)] show ?thesis by (simp add: unfold)
  qed
qed


theorem addDocuments_ids_unique_witness:
  "distinct (map doc_id (documents
      \<lparr>documents = [\<lparr>doc_id = Some ''1'', doc_text = Some ''apple'', doc_embedding = Some [1, 0]\<rparr>],
       dataFile = ''simple_vector_db.json''\<rparr>))
   \<and> documents (fst (snd (addDocuments (\<lambda>path content w. (Inr (), w))
        \<lparr>documents = [\<lparr>doc_id = Some ''1'', doc_text = Some ''apple'', doc_embedding = Some [1, 0]\<rparr>],
         dataFile = ''simple_vector_db.json''\<rparr>
        [''a'', ''b'', ''c''] [[0, 1], [1, 1], [0, 2]] [''2'', ''1'', ''2''] ())))
     = [\<lparr>doc_id = Some ''1'', doc_text = Some ''b'', doc_embedding = Some [1, 1]\<rparr>,
        \<lparr>doc_id = Some ''2'', doc_text = Some ''c'', doc_embedding = Some [0, 2]\<rparr>]
   \<and> distinct (map doc_id (documents (fst (snd (addDocuments (\<lambda>path content w. (Inr (), w))
        \<lparr>documents = [\<lparr>doc_id = Some ''1'', doc_text = Some ''apple'', doc_embedding = Some [1, 0]\<rparr>],
         dataFile = ''simple_vector_db.json''\<rparr>
        [''a'', ''b'', ''c''] [[0, 1], [1, 1], [0, 2]] [''2'', ''1'', ''2''] ())))))"
proof -
  let ?db = "\<lparr>documents = [\<lparr>doc_id = Some ''1'', doc_text = Some ''apple'',
                               doc_embedding = Some [1, 0 :: real]\<rparr>],
             dataFile = ''simple_vector_db.json''\<rparr>"
  have d: "distinct (map doc_id (documents ?db))" by simp
  have e: "documents (fst (snd (addDocuments (\<lambda>path content w. (Inr (), w)) ?db
        [''a'', ''b'', ''c''] [[0, 1], [1, 1], [0, 2]] [''2'', ''1'', ''2''] ())))
     = [\<lparr>doc_id = Some ''1'', doc_text = Some ''b'', doc_embedding = Some [1, 1]\<rparr>,
        \<lparr>doc_id = Some ''2'', doc_text = Some ''c'', doc_embedding = Some [0, 2]\<rparr>]"
    by (simp add: addDocuments_def saveToFile_def addDocuments_loop.simps js_nth_def)
  from addDocuments_ids_unique [OF d, of "\<lambda>path content w. (Inr (), w)"
         "[''a'', ''b'', ''c'']" "[[0, 1], [1, 1], [0, 2]]" "[''2'', ''1'', ''2'']" "()"]
  show ?thesis using d e by simp
qed

lemma query_entries_subset:
  assumes "query db v k = Inr r"
  shows "set (entries r) \<subseteq> entry_of v ` set (documents db)"
proof -
  have "set (entries r) \<subseteq> set (sort_key (\<lambda>e. snd (snd e)) (map (entry_of v) (documents db)))"
    unfolding query_entries [OF assms] array_slice_take by (rule set_take_subset)
  then show ?thesis by simp
qed

text \<open>
  Claim C2. Let \<open>j\<close> be the last position of the call that carries the id \<open>ids[j]\<close>, and
  let the corpus hold a record \<open>old\<close> with this id. After \<open>addDocuments\<close> the corpus has
  exactly one record with the id, and it carries the text and the vector of position
  \<open>j\<close>; \<open>old\<close> is gone unless it equals the new record; every entry with this id that
  a later query returns is the image of the new record; and when the text of \<open>old\<close>
  differs from the new text, no query returns an entry with this id and the text of
  \<open>old\<close>.
\<close>

theorem addDocuments_replaces:
  assumes "j < length texts"
    and "\<forall>j'. j < j' \<and> j' < length texts \<longrightarrow> js_nth ids j' \<noteq> js_nth ids j"
    and "old \<in> set (documents db)" and "doc_id old = js_nth ids j"
  shows "let db' = fst (snd (addDocuments writeFileSync db texts embeddings ids w));
             new = \<lparr>doc_id = js_nth ids j, doc_text = js_nth texts j,
                    doc_embedding = js_nth embeddings j\<rparr>
         in filter (\<lambda>d. doc_id d = js_nth ids j) (documents db') = [new]
            \<and> (old \<noteq> new \<longrightarrow> old \<notin> set (documents db'))
            \<and> (\<forall>v k r. query db' v k = Inr r \<longrightarrow>
                  (\<forall>e \<in> set (entries r). fst e = js_nth ids j \<longrightarrow> e = entry_of v new))
            \<and> (doc_text old \<noteq> js_nth texts j \<longrightarrow>
                  (\<forall>v k r. query db' v k = Inr r \<longrightarrow>
                     (\<forall>e \<in> set (entries r). \<not> (fst e = js_nth ids j \<and> fst (snd e) = doc_text old))))"
proof -
  define db' where "db' = fst (snd (addDocuments writeFileSync db texts embeddings ids w))"
  define new where "new = \<lparr>doc_id = js_nth ids j, doc_text = js_nth texts j,
                    doc_embedding = js_nth embeddings j\<rparr>"
  have one: "filter (\<lambda>d. doc_id d = js_nth ids j) (documents db') = [new]"
    unfolding db'_def new_def documents_addDocuments
    using assms(1,2) by (intro addDocuments_loop_last) simp_all
  have only: "d = new" if "d \<in> set (documents db')" "doc_id d = js_nth ids j" for d
  proof -
    from that have "d \<in> set (filter (\<lambda>d. doc_id d = js_nth ids j) (documents db'))" by simp
    then show ?thesis by (simp add: one)
  qed
  have gone: "old \<notin> set (documents db')" if "old \<noteq> new"
    using that only [of old] assms(4) by blast
  have returned: "e = entry_of v new"
    if "query db' v k = Inr r" "e \<in> set (entries r)" "fst e = js_nth ids j" for v k r e
  proof -
    from that(1) have "set (entries r) \<subseteq> entry_of v ` set (documents db')"
      by (rule query_entries_subset)
    with that(2) obtain d where d: "d \<in> set (documents db')" "e = entry_of v d" by blast
    with that(3) have "doc_id d = js_nth ids j" by (simp add: entry_of_def)
    with d only show ?thesis by blast
  qed
  have text_new: "fst (snd (entry_of v new)) = js_nth texts j" for v
    by (simp add: entry_of_def new_def)
  have "\<not> (fst e = js_nth ids j \<and> fst (snd e) = doc_text old)"
    if "doc_text old \<noteq> js_nth texts j" "query db' v k = Inr r" "e \<in> set (entries r)" for v k r e
    using returned [OF that(2,3)] text_new [of v] that(1) by auto
  with one gone returned show ?thesis
    unfolding Let_def db'_def [symmetric] new_def [symmetric] by blast
qed


theorem addDocuments_replaces_witness:
  "(0 :: nat) < length [''banana'', ''cherry'']
   \<and> js_nth [''1'', ''2''] 1 \<noteq> js_nth [''1'', ''2''] 0
   \<and> \<lparr>doc_id = Some ''1'', doc_text = Some ''apple'', doc_embedding = Some [1, 0]\<rparr>
       \<in> set (documents
            \<lparr>documents = [\<lparr>doc_id = Some ''1'', doc_text = Some ''apple'', doc_embedding = Some [1, 0]\<rparr>],
             dataFile = ''simple_vector_db.json''\<rparr>)
   \<and> js_nth [''1'', ''2''] 0 = Some ''1''
   \<and> documents (fst (snd (addDocuments (\<lambda>path content w. (Inr (), w))
        \<lparr>documents = [\<lparr>doc_id = Some ''1'', doc_text = Some ''apple'', doc_embedding = Some [1, 0]\<rparr>],
         dataFile = ''simple_vector_db.json''\<rparr>
        [''banana'', ''cherry''] [[0, 1], [1, 0]] [''1'', ''2''] ())))
     = [\<lparr>doc_id = Some ''1'', doc_text = Some ''banana'', doc_embedding = Some [0, 1]\<rparr>,
        \<lparr>doc_id = Some ''2'', doc_text = Some ''cherry'', doc_embedding = Some [1, 0]\<rparr>]
   \<and> query (fst (snd (addDocuments (\<lambda>path content w. (Inr (), w))
        \<lparr>documents = [\<lparr>doc_id = Some ''1'', doc_text = Some ''apple'', doc_embedding = Some [1, 0]\<rparr>],
         dataFile = ''simple_vector_db.json''\<rparr>
        [''banana'', ''cherry''] [[0, 1], [1, 0]] [''1'', ''2''] ()))) [1, 0] 2
     = Inr \<lparr>r_documents = [Some ''cherry'', Some ''banana''], r_ids = [Some ''2'', Some ''1''],
            r_distances = [0, 1]\<rparr>
   \<and> filter (\<lambda>d. doc_id d = Some ''1'')
        (documents (fst (snd (addDocuments (\<lambda>path content w. (Inr (), w))
        \<lparr>documents = [\<lparr>doc_id = Some ''1'', doc_text = Some ''apple'', doc_embedding = Some [1, 0]\<rparr>],
         dataFile = ''simple_vector_db.json''\<rparr>
        [''banana'', ''cherry''] [[0, 1], [1, 0]] [''1'', ''2''] ()))))
     = [\<lparr>doc_id = Some ''1'', doc_text = Some ''banana'', doc_embedding = Some [0, 1]\<rparr>]"
proof -
  let ?old = "\<lparr>doc_id = Some ''1'', doc_text = Some ''apple'', doc_embedding = Some [1, 0 :: real]\<rparr>"
  let ?db = "\<lparr>documents = [?old], dataFile = ''simple_vector_db.json''\<rparr>"
  let ?db' = "fst (snd (addDocuments (\<lambda>path content w. (Inr (), w)) ?db
                [''banana'', ''cherry''] [[0, 1], [1, 0]] [''1'', ''2''] ()))"
  have a: "(0 :: nat) < length [''banana'', ''cherry'']" by simp
  have n: "js_nth [''1'', ''2''] 1 \<noteq> js_nth [''1'', ''2''] 0" by (simp add: js_nth_def)
  have b: "\<forall>j'. 0 < j' \<and> j' < length [''banana'', ''cherry'']
             \<longrightarrow> js_nth [''1'', ''2''] j' \<noteq> js_nth [''1'', ''2''] 0"
    by (auto simp: js_nth_def less_Suc_eq)
  have c: "?old \<in> set (documents ?db)" by simp
  have d: "doc_id ?old = js_nth [''1'', ''2''] 0" by (simp add: js_nth_def)
  have e: "documents ?db'
     = [\<lparr>doc_id = Some ''1'', doc_text = Some ''banana'', doc_embedding = Some [0, 1]\<rparr>,
        \<lparr>doc_id = Some ''2'', doc_text = Some ''cherry'', doc_embedding = Some [1, 0]\<rparr>]"
    by (simp add: addDocuments_def saveToFile_def addDocuments_loop.simps js_nth_def)
  have q: "query ?db' [1, 0] 2
     = Inr \<lparr>r_documents = [Some ''cherry'', Some ''banana''], r_ids = [Some ''2'', Some ''1''],
            r_distances = [0, 1]\<rparr>"
    by (simp add: query_def e score_def cosineSimilarity_eq vnorm_def dot_def array_sort_def
        array_slice_def)
  from addDocuments_replaces [OF a b c d, of "\<lambda>path content w. (Inr (), w)" "[[0, 1], [1, 0]]" "()"]
  have "filter (\<lambda>d. doc_id d = js_nth [''1'', ''2''] 0) (documents ?db')
     = [\<lparr>doc_id = js_nth [''1'', ''2''] 0, doc_text = js_nth [''banana'', ''cherry''] 0,
         doc_embedding = js_nth [[0, 1], [1, 0]] 0\<rparr>]"
    by (simp add: Let_def)
  then show ?thesis using a n c e q by (simp add: js_nth_def)
qed


section \<open>The corpus under \<open>query\<close> and \<open>getExistingIds\<close>\<close>

lemma read_docs_scored:
  "read_docs (h @ [ScoredArray xs, ScoredArray ys]) p = read_docs h p"
  by (auto simp: read_docs_def js_nth_def nth_append nth_Cons split: nat.splits)

lemma read_docs_strings:
  "read_docs (h @ [StringArray xs]) p = read_docs h p"
  by (auto simp: read_docs_def js_nth_def nth_append)

lemma read_scored_new:
  "read_scored (h @ ScoredArray xs # hs) (length h) = xs"
  by (simp add: read_scored_def js_nth_def)

lemma read_scored_new2:
  "read_scored (h @ [a, ScoredArray xs]) (Suc (length h)) = xs"
  by (simp add: read_scored_def js_nth_def nth_append)

lemma query_on_heap_steps:
  assumes "read_docs h (documents_addr this) \<noteq> []"
    and "map_result (score v) (read_docs h (documents_addr this)) = Inr mapped"
  shows "query_on_heap this v k h =
           (let top = array_slice (array_sort (\<lambda>a b. similarity b - similarity a) mapped) 0 k
            in (Inr \<lparr>r_documents = map doc_text top, r_ids = map doc_id top,
                     r_distances = map distance top\<rparr>,
                h @ [ScoredArray (array_sort (\<lambda>a b. similarity b - similarity a) mapped),
                     ScoredArray top]))"
  using assms
  by (simp add: query_on_heap_def alloc_def sort_in_place_def Let_def read_scored_new
      read_scored_new2)

text \<open>
  Claim C10. In the model with an array store, \<open>query\<close> and \<open>getExistingIds\<close> leave every
  array of the store as it was and only add new arrays behind them; the object is not
  assigned to. So the records of the corpus are the same after the call as before it. The
  results are those of the first model.
\<close>

theorem query_leaves_corpus:
  "prefix h (snd (query_on_heap this v k h))
   \<and> abstract_db this (snd (query_on_heap this v k h)) = abstract_db this h
   \<and> fst (query_on_heap this v k h) = query (abstract_db this h) v k
   \<and> prefix h (snd (getExistingIds_on_heap this h))
   \<and> abstract_db this (snd (getExistingIds_on_heap this h)) = abstract_db this h
   \<and> fst (getExistingIds_on_heap this h) = getExistingIds (abstract_db this h)"
proof -
  have ids: "prefix h (snd (getExistingIds_on_heap this h))
      \<and> abstract_db this (snd (getExistingIds_on_heap this h)) = abstract_db this h
      \<and> fst (getExistingIds_on_heap this h) = getExistingIds (abstract_db this h)"
    by (simp add: getExistingIds_on_heap_def alloc_def abstract_db_def getExistingIds_def
        read_docs_strings)
  have q: "prefix h (snd (query_on_heap this v k h))
      \<and> abstract_db this (snd (query_on_heap this v k h)) = abstract_db this h
      \<and> fst (query_on_heap this v k h) = query (abstract_db this h) v k"
  proof (cases "read_docs h (documents_addr this) = []")
    case True
    then show ?thesis
      by (simp add: query_on_heap_def query_def abstract_db_def)
  next
    case False
    show ?thesis
    proof (cases "map_result (score v) (read_docs h (documents_addr this))")
      case (Inl e)
      with False show ?thesis
        by (simp add: query_on_heap_def query_def abstract_db_def)
    next
      case (Inr mapped)
      from query_on_heap_steps [OF False Inr] False Inr show ?thesis
        by (simp add: Let_def query_def abstract_db_def read_docs_scored)
    qed
  qed
  from q ids show ?thesis by simp
qed

theorem query_leaves_corpus_witness:
  "read_docs (snd (query_on_heap \<lparr>documents_addr = 0, dataFile_value = ''simple_vector_db.json''\<rparr>
       [1, 0] 1
       [DocArray [\<lparr>doc_id = Some ''B'', doc_text = Some ''b'', doc_embedding = Some [0, 1]\<rparr>,
                  \<lparr>doc_id = Some ''A'', doc_text = Some ''a'', doc_embedding = Some [1, 0]\<rparr>]])) 0
     = [\<lparr>doc_id = Some ''B'', doc_text = Some ''b'', doc_embedding = Some [0, 1]\<rparr>,
        \<lparr>doc_id = Some ''A'', doc_text = Some ''a'', doc_embedding = Some [1, 0]\<rparr>]
   \<and> fst (query_on_heap \<lparr>documents_addr = 0, dataFile_value = ''simple_vector_db.json''\<rparr>
       [1, 0] 1
       [DocArray [\<lparr>doc_id = Some ''B'', doc_text = Some ''b'', doc_embedding = Some [0, 1]\<rparr>,
                  \<lparr>doc_id = Some ''A'', doc_text = Some ''a'', doc_embedding = Some [1, 0]\<rparr>]])
     = Inr \<lparr>r_documents = [Some ''a''], r_ids = [Some ''A''], r_distances = [0]\<rparr>
   \<and> length (snd (query_on_heap \<lparr>documents_addr = 0, dataFile_value = ''simple_vector_db.json''\<rparr>
       [1, 0] 1
       [DocArray [\<lparr>doc_id = Some ''B'', doc_text = Some ''b'', doc_embedding = Some [0, 1]\<rparr>,
                  \<lparr>doc_id = Some ''A'', doc_text = Some ''a'', doc_embedding = Some [1, 0]\<rparr>]])) = 3"
proof -
  let ?obj = "\<lparr>documents_addr = 0, dataFile_value = ''simple_vector_db.json''\<rparr>"
  let ?docs = "[\<lparr>doc_id = Some ''B'', doc_text = Some ''b'', doc_embedding = Some [0, 1 :: real]\<rparr>,
                \<lparr>doc_id = Some ''A'', doc_text = Some ''a'', doc_embedding = Some [1, 0]\<rparr>]"
  let ?h = "[DocArray ?docs]"
  have r: "read_docs ?h 0 = ?docs" by (simp add: read_docs_def js_nth_def)
  have m: "map_result (score [1, 0]) ?docs = Inr (map (scored_of [1, 0]) ?docs)"
    by (intro map_result_total) (auto simp: score_Inr comparable_def)
  have q: "query (abstract_db ?obj ?h) [1, 0] 1
             = Inr \<lparr>r_documents = [Some ''a''], r_ids = [Some ''A''], r_distances = [0]\<rparr>"
    by (simp add: abstract_db_def r query_def score_def cosineSimilarity_eq vnorm_def dot_def
        array_sort_def array_slice_def)
  have l: "length (snd (query_on_heap ?obj [1, 0] 1 ?h)) = 3"
    using query_on_heap_steps [of ?h ?obj "[1, 0]" _ 1] r m by (simp add: Let_def)
  from query_leaves_corpus [of ?h ?obj "[1, 0]" 1]
  have "abstract_db ?obj (snd (query_on_heap ?obj [1, 0] 1 ?h)) = abstract_db ?obj ?h"
    and "fst (query_on_heap ?obj [1, 0] 1 ?h) = query (abstract_db ?obj ?h) [1, 0] 1"
    by simp_all
  then show ?thesis using r q l by (simp add: abstract_db_def)
qed


section \<open>Properties of \<open>withRetry\<close>\<close>

lemma withRetry_unfold:
  "withRetry operation w =
     (case operation w of
        (Inr v, w1) \<Rightarrow> (Inr v, w1, [Attempt])
      | (Inl e0, w1) \<Rightarrow>
          (case operation w1 of
             (Inr v, w2) \<Rightarrow> (Inr v, w2, [Attempt, Delay (retryDelay * 2 ^ 0), Attempt])
           | (Inl e1, w2) \<Rightarrow>
               (case operation w2 of
                  (Inr v, w3) \<Rightarrow>
                    (Inr v, w3, [Attempt, Delay (retryDelay * 2 ^ 0), Attempt,
                                 Delay (retryDelay * 2 ^ 1), Attempt])
                | (Inl e2, w3) \<Rightarrow>
                    (Inl e2, w3, [Attempt, Delay (retryDelay * 2 ^ 0), Attempt,
                                  Delay (retryDelay * 2 ^ 1), Attempt]))))"
  by (simp add: withRetry_def withRetry_loop.simps retryAttempts_def
      split: prod.splits sum.splits)

lemma less_3_cases: "j < (3 :: nat) \<longleftrightarrow> j = 0 \<or> j = 1 \<or> j = 2"
  by auto

lemma all_less_3: "(\<forall>i < (3 :: nat). P i) \<longleftrightarrow> P 0 \<and> P 1 \<and> P 2"
  by (auto simp: less_3_cases)

lemma all_less_2: "(\<forall>i < (2 :: nat). P i) \<longleftrightarrow> P 0 \<and> P 1"
  by (auto simp: less_Suc_eq numeral_2_eq_2)

text \<open>
  Claim C4. \<open>withRetry\<close> calls the operation at most \<open>3\<close> times. When call \<open>j < 3\<close> is the
  first that succeeds, its value is returned, and before it every failed call \<open>i\<close> was
  followed by a delay of \<open>retryDelay * 2 ^ i\<close>. When all three calls fail, the error of
  the third call is returned, after the delays \<open>retryDelay * 2 ^ 0\<close> and
  \<open>retryDelay * 2 ^ 1\<close> and with no delay after the third call.
\<close>

theorem withRetry_contract:
  "(case withRetry operation w of
      (res, w', tr) \<Rightarrow>
        length (filter (\<lambda>ev. ev = Attempt) tr) \<le> 3
      \<and> (\<forall>j v. j < 3 \<and> (\<forall>i < j. isl (outcome operation w i)) \<and> outcome operation w j = Inr v
             \<longrightarrow> res = Inr v \<and> w' = world_after operation w (Suc j)
               \<and> tr = concat (map (\<lambda>i. [Attempt, Delay (retryDelay * 2 ^ i)]) [0..<j]) @ [Attempt])
      \<and> ((\<forall>i < 3. isl (outcome operation w i))
             \<longrightarrow> res = outcome operation w 2 \<and> w' = world_after operation w 3
               \<and> tr = [Attempt, Delay (retryDelay * 2 ^ 0), Attempt,
                       Delay (retryDelay * 2 ^ 1), Attempt]))"
proof -
  obtain r0 w1 where s0: "operation w = (r0, w1)" by (cases "operation w")
  obtain r1 w2 where s1: "operation w1 = (r1, w2)" by (cases "operation w1")
  obtain r2 w3 where s2: "operation w2 = (r2, w3)" by (cases "operation w2")
  have wa: "world_after operation w (Suc 0) = w1" "world_after operation w 2 = w2"
    "world_after operation w (Suc 2) = w3" "world_after operation w 3 = w3"
    by (simp_all add: numeral_3_eq_3 numeral_2_eq_2 s0 s1 s2)
  have o: "outcome operation w 0 = r0" "outcome operation w (Suc 0) = r1"
    "outcome operation w 2 = r2"
    by (simp_all add: outcome_def numeral_2_eq_2 s0 s1 s2)
  have up: "[0..<1] = [0 :: nat]" "[0..<2] = [0, 1 :: nat]"
    by (simp_all add: upt_rec)
  show ?thesis
  proof (cases r0)
    case (Inr v0)
    then show ?thesis
      by (auto simp: withRetry_unfold s0 o wa less_3_cases all_less_2)
  next
    case e0: (Inl e0)
    show ?thesis
    proof (cases r1)
      case (Inr v1)
      with e0 show ?thesis
        by (auto simp: withRetry_unfold s0 s1 o wa up less_3_cases all_less_2)
    next
      case e1: (Inl e1)
      show ?thesis
      proof (cases r2)
        case (Inr v2)
        with e0 e1 show ?thesis
          by (auto simp: withRetry_unfold s0 s1 s2 o wa up less_3_cases all_less_2 all_less_3)
      next
        case (Inl e2)
        with e0 e1 show ?thesis
          by (auto simp: withRetry_unfold s0 s1 s2 o wa up less_3_cases all_less_2 all_less_3)
      qed
    qed
  qed
qed


theorem withRetry_contract_witness:
  "isl (outcome (\<lambda>n :: nat. (if n < 2 then Inl (Error ''unavailable'') else Inr ''ok'', Suc n)) 0 0)
   \<and> isl (outcome (\<lambda>n :: nat. (if n < 2 then Inl (Error ''unavailable'') else Inr ''ok'', Suc n)) 0 1)
   \<and> outcome (\<lambda>n :: nat. (if n < 2 then Inl (Error ''unavailable'') else Inr ''ok'', Suc n)) 0 2
       = Inr ''ok''
   \<and> withRetry (\<lambda>n :: nat. (if n < 2 then Inl (Error ''unavailable'') else Inr ''ok'', Suc n)) 0
       = (Inr ''ok'', 3, [Attempt, Delay 1000, Attempt, Delay 2000, Attempt])
   \<and> isl (outcome (\<lambda>n :: nat. (Inl (Error (if n = 2 then ''third'' else ''earlier'')) :: error + string, Suc n)) 0 0)
   \<and> isl (outcome (\<lambda>n :: nat. (Inl (Error (if n = 2 then ''third'' else ''earlier'')) :: error + string, Suc n)) 0 1)
   \<and> isl (outcome (\<lambda>n :: nat. (Inl (Error (if n = 2 then ''third'' else ''earlier'')) :: error + string, Suc n)) 0 2)
   \<and> withRetry (\<lambda>n :: nat. (Inl (Error (if n = 2 then ''third'' else ''earlier'')) :: error + string, Suc n)) 0
       = (Inl (Error ''third''), 3, [Attempt, Delay 1000, Attempt, Delay 2000, Attempt])"
proof -
  let ?op = "\<lambda>n :: nat. (if n < 2 then Inl (Error ''unavailable'') else Inr ''ok'', Suc n)"
  let ?bad = "\<lambda>n :: nat. (Inl (Error (if n = 2 then ''third'' else ''earlier'')) :: error + string, Suc n)"
  have w: "world_after ?op 0 n = n" "world_after ?bad 0 n = n" for n
    by (induction n) simp_all
  have o: "isl (outcome ?op 0 0)" "isl (outcome ?op 0 1)" "outcome ?op 0 2 = Inr ''ok''"
    and b: "isl (outcome ?bad 0 0)" "isl (outcome ?bad 0 1)" "isl (outcome ?bad 0 2)"
      "outcome ?bad 0 2 = Inl (Error ''third'')"
    by (simp_all add: outcome_def w)
  have up: "[0..<2] = [0, 1 :: nat]" by (simp add: upt_rec)
  obtain res w' tr where r: "withRetry ?op 0 = (res, w', tr)"
    by (cases "withRetry ?op 0")
  from o have h: "(2 :: nat) < 3 \<and> (\<forall>i < 2. isl (outcome ?op 0 i)) \<and> outcome ?op 0 2 = Inr ''ok''"
    by (simp add: less_Suc_eq numeral_2_eq_2)
  have "res = Inr ''ok'' \<and> w' = world_after ?op 0 (Suc 2)
        \<and> tr = concat (map (\<lambda>i. [Attempt, Delay (retryDelay * 2 ^ i)]) [0..<2]) @ [Attempt]"
    by (rule withRetry_contract [of ?op 0, unfolded r prod.case, THEN conjunct2, THEN conjunct1,
          rule_format, OF h])
  with r have first: "withRetry ?op 0
       = (Inr ''ok'', 3, [Attempt, Delay 1000, Attempt, Delay 2000, Attempt])"
    by (simp add: r w up retryDelay_def)
  obtain res2 w2 tr2 where r2: "withRetry ?bad 0 = (res2, w2, tr2)"
    by (cases "withRetry ?bad 0")
  from b have h2: "\<forall>i < 3. isl (outcome ?bad 0 i)"
    by (simp add: less_Suc_eq numeral_3_eq_3 numeral_2_eq_2)
  have "res2 = outcome ?bad 0 2 \<and> w2 = world_after ?bad 0 3
        \<and> tr2 = [Attempt, Delay (retryDelay * 2 ^ 0), Attempt, Delay (retryDelay * 2 ^ 1), Attempt]"
    by (rule withRetry_contract [of ?bad 0, unfolded r2 prod.case, THEN conjunct2, THEN conjunct2,
          THEN mp, OF h2])
  with r2 b have second: "withRetry ?bad 0
       = (Inl (Error ''third''), 3, [Attempt, Delay 1000, Attempt, Delay 2000, Attempt])"
    by (simp add: w retryDelay_def)
  from o b first second show ?thesis by simp
qed


section \<open>Properties of \<open>createVectorDatabase\<close>\<close>

text \<open>
  Claim C5. When \<open>VECTOR_DB_TYPE\<close> is \<open>upstash\<close> and the URL or the token is absent,
  \<open>createVectorDatabase\<close> returns the in-memory store and logs the fallback; the same
  holds when one of them is the empty string. When both are present, that is, defined and
  not empty, it returns the Upstash adapter.
\<close>

theorem createVectorDatabase_selection:
  "(VECTOR_DB_TYPE cfg = upstash
      \<and> (UPSTASH_VECTOR_URL cfg = None \<or> UPSTASH_VECTOR_TOKEN cfg = None)
      \<longrightarrow> createVectorDatabase cfg =
            (new_SimpleVectorDatabase, [''Falling back to simple vector database'']))
   \<and> (VECTOR_DB_TYPE cfg = upstash
      \<and> \<not> (truthy (UPSTASH_VECTOR_URL cfg) \<and> truthy (UPSTASH_VECTOR_TOKEN cfg))
      \<longrightarrow> createVectorDatabase cfg =
            (new_SimpleVectorDatabase, [''Falling back to simple vector database'']))
   \<and> (VECTOR_DB_TYPE cfg = upstash
      \<and> truthy (UPSTASH_VECTOR_URL cfg) \<and> truthy (UPSTASH_VECTOR_TOKEN cfg)
      \<longrightarrow> createVectorDatabase cfg = (new_UpstashDatabase, []))"
  by (auto simp: createVectorDatabase_def truthy_def split: option.splits)

theorem createVectorDatabase_selection_witness:
  "VECTOR_DB_TYPE \<lparr>VECTOR_DB_TYPE = upstash, UPSTASH_VECTOR_URL = Some ''https://vector.example'',
                    UPSTASH_VECTOR_TOKEN = None\<rparr> = upstash
   \<and> UPSTASH_VECTOR_TOKEN \<lparr>VECTOR_DB_TYPE = upstash,
        UPSTASH_VECTOR_URL = Some ''https://vector.example'', UPSTASH_VECTOR_TOKEN = None\<rparr> = None
   \<and> createVectorDatabase \<lparr>VECTOR_DB_TYPE = upstash,
        UPSTASH_VECTOR_URL = Some ''https://vector.example'', UPSTASH_VECTOR_TOKEN = None\<rparr>
       = (new_SimpleVectorDatabase, [''Falling back to simple vector database''])
   \<and> truthy (Some ''https://vector.example'') \<and> truthy (Some ''token'')
   \<and> createVectorDatabase \<lparr>VECTOR_DB_TYPE = upstash,
        UPSTASH_VECTOR_URL = Some ''https://vector.example'', UPSTASH_VECTOR_TOKEN = Some ''token''\<rparr>
       = (new_UpstashDatabase, [])"
proof -
  let ?none = "\<lparr>VECTOR_DB_TYPE = upstash, UPSTASH_VECTOR_URL = Some ''https://vector.example'',
                UPSTASH_VECTOR_TOKEN = None\<rparr>"
  let ?both = "\<lparr>VECTOR_DB_TYPE = upstash, UPSTASH_VECTOR_URL = Some ''https://vector.example'',
                UPSTASH_VECTOR_TOKEN = Some ''token''\<rparr>"
  have t: "truthy (Some ''https://vector.example'')" "truthy (Some ''token'')"
    by (simp_all add: truthy_def)
  have a: "VECTOR_DB_TYPE ?none = upstash
           \<and> (UPSTASH_VECTOR_URL ?none = None \<or> UPSTASH_VECTOR_TOKEN ?none = None)"
    by simp
  have b: "VECTOR_DB_TYPE ?both = upstash
           \<and> truthy (UPSTASH_VECTOR_URL ?both) \<and> truthy (UPSTASH_VECTOR_TOKEN ?both)"
    using t by simp
  note createVectorDatabase_selection [of ?none, THEN conjunct1, THEN mp, OF a]
    createVectorDatabase_selection [of ?both, THEN conjunct2, THEN conjunct2, THEN mp, OF b]
  then show ?thesis using t by simp
qed


section \<open>Properties of the Upstash adapter\<close>

lemma withRetry_always_fails:
  assumes "\<forall>w'. fst (operation w') = Inl e"
  shows "fst (withRetry operation w) = Inl e"
proof -
  have step: "\<exists>w1. operation w' = (Inl e, w1)" for w'
    using assms by (metis prod.collapse)
  from step obtain w1 where s0: "operation w = (Inl e, w1)" by blast
  from step obtain w2 where s1: "operation w1 = (Inl e, w2)" by blast
  from step obtain w3 where s2: "operation w2 = (Inl e, w3)" by blast
  show ?thesis
    by (simp add: withRetry_unfold s0 s1 s2)
qed

text \<open>
  Claim C7. On an initialised adapter, when the bootstrap query of \<open>getExistingIds\<close>
  fails, the result is the empty sequence; \<open>getExistingIds\<close> never ends with an error.
  By contrast \<open>query\<close> and \<open>addDocuments\<close> end with the error of the service when each
  of their calls fails.
\<close>

theorem upstash_getExistingIds_soft:
  assumes "index db = Some idx"
  shows "(fst (index_query idx \<lparr>vector = replicate 1536 0, topK = 100,
                                 includeMetadata = Some False\<rparr> w) = Inl e
            \<longrightarrow> fst (upstash_getExistingIds toString db w) = Inr [])
       \<and> (\<forall>e'. fst (upstash_getExistingIds toString db w) \<noteq> Inl e')
       \<and> ((\<forall>args w'. fst (index_query idx args w') = Inl e)
            \<longrightarrow> fst (upstash_query toString db v k w) = Inl e)
       \<and> ((\<forall>vectors w'. fst (index_upsert idx vectors w') = Inl e)
            \<longrightarrow> fst (upstash_addDocuments now db texts embeddings ids w) = Inl e)"
proof (intro conjI impI allI)
  assume "fst (index_query idx \<lparr>vector = replicate 1536 0, topK = 100,
                                 includeMetadata = Some False\<rparr> w) = Inl e"
  with assms show "fst (upstash_getExistingIds toString db w) = Inr []"
    by (auto simp: upstash_getExistingIds_def split: prod.splits sum.splits)
next
  fix e'
  from assms show "fst (upstash_getExistingIds toString db w) \<noteq> Inl e'"
    by (auto simp: upstash_getExistingIds_def split: prod.splits sum.splits)
next
  assume "\<forall>args w'. fst (index_query idx args w') = Inl e"
  then have "fst (withRetry (index_query idx \<lparr>vector = v, topK = k,
                                 includeMetadata = Some True\<rparr>) w) = Inl e"
    by (intro withRetry_always_fails) simp
  with assms show "fst (upstash_query toString db v k w) = Inl e"
    by (auto simp: upstash_query_def split: prod.splits sum.splits)
next
  assume "\<forall>vectors w'. fst (index_upsert idx vectors w') = Inl e"
  then have "fst (withRetry (index_upsert idx vs) w) = Inl e" for vs
    by (intro withRetry_always_fails) simp
  with assms show "fst (upstash_addDocuments now db texts embeddings ids w) = Inl e"
    by (simp add: upstash_addDocuments_def Let_def)
qed

theorem upstash_getExistingIds_soft_witness:
  "index \<lparr>index = Some \<lparr>index_query = \<lambda>args w. (Inl (Error ''unreachable''), w),
                         index_upsert = \<lambda>vectors w. (Inl (Error ''unreachable''), w)\<rparr>\<rparr>
     = Some \<lparr>index_query = \<lambda>args w. (Inl (Error ''unreachable'') :: error + string QueryHit list, w :: unit),
             index_upsert = \<lambda>vectors w. (Inl (Error ''unreachable''), w)\<rparr>
   \<and> fst (upstash_getExistingIds (\<lambda>s. s)
        \<lparr>index = Some \<lparr>index_query = \<lambda>args w. (Inl (Error ''unreachable''), w),
                       index_upsert = \<lambda>vectors w. (Inl (Error ''unreachable''), w)\<rparr>\<rparr> ()) = Inr []
   \<and> fst (upstash_query (\<lambda>s. s)
        \<lparr>index = Some \<lparr>index_query = \<lambda>args w. (Inl (Error ''unreachable''), w),
                       index_upsert = \<lambda>vectors w. (Inl (Error ''unreachable''), w)\<rparr>\<rparr> [1, 0] 3 ())
       = Inl (Error ''unreachable'')
   \<and> fst (upstash_addDocuments (\<lambda>i. ''2024-01-01T00:00:00.000Z'')
        \<lparr>index = Some \<lparr>index_query = \<lambda>args w. (Inl (Error ''unreachable'') :: error + string QueryHit list, w),
                       index_upsert = \<lambda>vectors w. (Inl (Error ''unreachable''), w)\<rparr>\<rparr>
        [''apple''] [[1, 0]] [''1''] ())
       = Inl (Error ''unreachable'')"
proof -
  let ?idx = "\<lparr>index_query = \<lambda>args w. (Inl (Error ''unreachable'') :: error + string QueryHit list, w :: unit),
               index_upsert = \<lambda>vectors w. (Inl (Error ''unreachable''), w)\<rparr>"
  let ?db = "\<lparr>index = Some ?idx\<rparr>"
  have i: "index ?db = Some ?idx" by simp
  note T = upstash_getExistingIds_soft [OF i, of "()" "Error ''unreachable''" "\<lambda>s. s"]
  have a: "fst (index_query ?idx \<lparr>vector = replicate 1536 0, topK = 100,
                                 includeMetadata = Some False\<rparr> ()) = Inl (Error ''unreachable'')"
    by simp
  have b: "\<forall>args w'. fst (index_query ?idx args w') = Inl (Error ''unreachable'')" by simp
  have c: "\<forall>vectors w'. fst (index_upsert ?idx vectors w') = Inl (Error ''unreachable'')" by simp
  note T [THEN conjunct1, THEN mp, OF a]
    T [of "[1, 0]" 3, THEN conjunct2, THEN conjunct2, THEN conjunct1, THEN mp, OF b]
    T [where now = "\<lambda>i. ''2024-01-01T00:00:00.000Z''" and texts = "[''apple'']"
         and embeddings = "[[1, 0]]" and ids = "[''1'']",
       THEN conjunct2, THEN conjunct2, THEN conjunct2, THEN mp, OF c]
  then show ?thesis by simp
qed

end
